theory Spec2Isabelle
  imports Main
begin

section \<open>Severity levels (golog.go, lines 13-32)\<close>

text \<open>
  \<^verbatim>\<open>type Level int\<close> with the constants \<^verbatim>\<open>DEBUG .. FATAL\<close> numbered by \<^verbatim>\<open>iota\<close> and
  \<^verbatim>\<open>INVALID Level = -1\<close>. A \<^verbatim>\<open>Level\<close> is any integer: the type does not restrict it to the
  six named values. No arithmetic is done on levels, only comparison, so the width of the Go
  \<^verbatim>\<open>int\<close> plays no role and levels are modelled as \<open>int\<close>.
\<close>

type_synonym Level = int

definition DEBUG :: Level where "DEBUG = 0"
definition INFO :: Level where "INFO = 1"
definition WARN :: Level where "WARN = 2"
definition ERROR :: Level where "ERROR = 3"
definition FATAL :: Level where "FATAL = 4"
definition INVALID :: Level where "INVALID = - 1"

definition level_string :: "string list" where
  "level_string = [''DEBUG'', ''INFO'', ''WARN'', ''ERROR'', ''FATAL'']"

text \<open>
  The indexing \<^verbatim>\<open>level_string[msg.level]\<close>. Go panics when the index is outside the
  array; the panic is the value \<open>None\<close>.
\<close>

definition level_string_at :: "Level \<Rightarrow> string option" where
  "level_string_at l =
     (if 0 \<le> l \<and> l < int (length level_string) then Some (level_string ! nat l) else None)"

section \<open>Library functions used by the logger\<close>

text \<open>
  \<^verbatim>\<open>strings.ToUpper\<close> is library code. \<open>ToLevel\<close> below takes the upper-casing function as
  a parameter, so what is proved about it holds for the library's function whatever it does
  outside ASCII. \<open>ToUpper\<close> is the library function on ASCII text (bytes \<open>a..z\<close> are moved
  to \<open>A..Z\<close>, every other byte is kept) and serves the concrete evaluations.
\<close>

definition upper_byte :: "char \<Rightarrow> char" where
  "upper_byte c =
     (let n = (of_char c :: nat) in if 97 \<le> n \<and> n \<le> 122 then char_of (n - 32) else c)"

definition ToUpper :: "string \<Rightarrow> string" where
  "ToUpper str = map upper_byte str"

text \<open>Decimal rendering, as the verb \<^verbatim>\<open>%d\<close> and the numeric fields of a time layout do it.\<close>

definition digit_char :: "nat \<Rightarrow> char" where
  "digit_char d = ''0123456789'' ! (d mod 10)"

fun dec_nat :: "nat \<Rightarrow> string" where
  "dec_nat n = (if n < 10 then [digit_char n] else dec_nat (n div 10) @ [digit_char (n mod 10)])"

definition dec_int :: "int \<Rightarrow> string" where
  "dec_int i = (if i < 0 then CHR ''-'' # dec_nat (nat (- i)) else dec_nat (nat i))"

text \<open>Padding on the left up to a width; a longer text is kept whole (\<^verbatim>\<open>%5s\<close>).\<close>

definition pad_left :: "nat \<Rightarrow> char \<Rightarrow> string \<Rightarrow> string" where
  "pad_left w c str = replicate (w - length str) c @ str"

text \<open>
  The wall-clock reading \<^verbatim>\<open>time.Now()\<close> is an input of the daemon. \<open>Format_stamp\<close> is
  \<^verbatim>\<open>Time.Format("Jan 2 15:04:05.000")\<close> as package \<^verbatim>\<open>time\<close> documents that layout:
  three-letter English month, day of the month without padding, two-digit hour, minute and
  second, and the fraction of the second cut to three digits.
\<close>

datatype Month = January | February | March | April | May | June
  | July | August | September | October | November | December

fun month_abbrev :: "Month \<Rightarrow> string" where
  "month_abbrev January = ''Jan''"
| "month_abbrev February = ''Feb''"
| "month_abbrev March = ''Mar''"
| "month_abbrev April = ''Apr''"
| "month_abbrev May = ''May''"
| "month_abbrev June = ''Jun''"
| "month_abbrev July = ''Jul''"
| "month_abbrev August = ''Aug''"
| "month_abbrev September = ''Sep''"
| "month_abbrev October = ''Oct''"
| "month_abbrev November = ''Nov''"
| "month_abbrev December = ''Dec''"

record Time =
  t_month :: Month
  t_day :: nat
  t_hour :: nat
  t_minute :: nat
  t_second :: nat
  t_nanosecond :: nat

definition Format_stamp :: "Time \<Rightarrow> string" where
  "Format_stamp t =
     month_abbrev (t_month t) @ '' '' @ dec_nat (t_day t) @ '' '' @
     pad_left 2 CHR ''0'' (dec_nat (t_hour t)) @ '':'' @
     pad_left 2 CHR ''0'' (dec_nat (t_minute t)) @ '':'' @
     pad_left 2 CHR ''0'' (dec_nat (t_second t)) @ ''.'' @
     pad_left 3 CHR ''0'' (dec_nat (t_nanosecond t div 1000000))"

text \<open>
  \<^verbatim>\<open>filepath.Split\<close> cuts a path right after its last separator; \<open>filename_fn\<close> is the
  source's \<^verbatim>\<open>filename\<close>, which keeps the second half (separator \<^verbatim>\<open>/\<close>).
\<close>

definition filename_fn :: "string \<Rightarrow> string" where
  "filename_fn p = rev (takeWhile (\<lambda>c. c \<noteq> CHR ''/'') (rev p))"

text \<open>
  \<^verbatim>\<open>fmt.Sprintf\<close> is library code and the spec leaves the rendering of a format opaque.
  The formatted entry points take the renderer as the parameter \<open>spf\<close>; its operands
  (\<^verbatim>\<open>a ...interface{}\<close>) are values of \<open>go_value\<close>. \<open>Sprintf_s\<close> renders the
  formats whose only verb is \<^verbatim>\<open>%s\<close>, given one operand for each verb, which is all that
  the logger's own calls use, and serves the concrete evaluations.
\<close>

type_synonym go_error = string

datatype go_value = VString string | VError go_error | VInt int

type_synonym sprintf = "string \<Rightarrow> go_value list \<Rightarrow> string"

fun value_text :: "go_value \<Rightarrow> string" where
  "value_text (VString x) = x"
| "value_text (VError e) = e"
| "value_text (VInt i) = dec_int i"

fun Sprintf_s :: sprintf where
  "Sprintf_s [] vs = []"
| "Sprintf_s [c] vs = [c]"
| "Sprintf_s (c # d # rest) [] = c # Sprintf_s (d # rest) []"
| "Sprintf_s (c # d # rest) (v # vs) =
     (if c = CHR ''%'' \<and> d = CHR ''s'' then value_text v @ Sprintf_s rest vs
      else c # Sprintf_s (d # rest) (v # vs))"

section \<open>Data model (golog.go, lines 34-48)\<close>

text \<open>
  An \<^verbatim>\<open>*os.File\<close> is one of the standard streams or a handle that \<^verbatim>\<open>os.OpenFile\<close>
  returned. What \<^verbatim>\<open>os.OpenFile\<close> answers is an input of \<open>Open\<close> and \<open>Rotate\<close>:
  \<open>Inl err\<close> or \<open>Inr handle\<close>.
\<close>

datatype os_File = Stdout | Stderr | Handle nat

record FileLog =
  writer :: os_File
  path :: string

record Caller =
  filename :: string
  line :: int

record Message =
  caller :: Caller
  message :: string
  level :: Level

text \<open>
  What became of the process: still running, ended by \<^verbatim>\<open>os.Exit(code)\<close>, or brought down
  by a run-time panic in one of its goroutines.
\<close>

datatype status = Running | Exited int | Panicked

text \<open>
  The package-level variables, followed by what the claims observe of the world around
  them. The channels \<^verbatim>\<open>quit_signal\<close> and \<^verbatim>\<open>termsig\<close> carry bytes that are always 0 and
  that the receiver throws away, so each is the number of bytes it buffers (capacity 1).
  \<open>written\<close> lists every \<^verbatim>\<open>fmt.Fprintf\<close> in the order made, with the file written to;
  \<open>synced\<close> lists the \<^verbatim>\<open>Sync\<close> calls. \<open>starting\<close> counts the daemon goroutines that
  \<^verbatim>\<open>go daemon()\<close> has created and that have not run their first statement yet, \<open>looping\<close>
  those inside the \<^verbatim>\<open>for\<close> loop, and \<open>fatal_waiters\<close> the callers of \<^verbatim>\<open>Fatal\<close> and
  \<^verbatim>\<open>Fatalf\<close> that have sent their message and stand at \<^verbatim>\<open><-quit_signal\<close>.
\<close>

record state =
  logLevel :: Level
  queue :: "Message list"
  quit_signal :: nat
  logger :: FileLog
  termsig :: nat
  prefix :: string
  has_daemon :: bool
  written :: "(os_File \<times> string) list"
  synced :: "os_File list"
  starting :: nat
  looping :: nat
  fatal_waiters :: nat
  status :: status

section \<open>Operations of golog.go\<close>

text \<open>
  Each function is taken as one step on the state, from its call to its return. A call
  that has to wait on a channel (a send on a full channel, a receive on an empty one) has
  the value \<open>None\<close> for as long as it waits: it has not returned, and it returns the
  \<open>Some\<close> answer once the channel lets it through. The mutex \<^verbatim>\<open>lock\<close> has no variable
  of its own: the sections it guards (the write of the daemon, \<open>Open\<close>, \<open>Rotate\<close>) are
  single steps, so that none of them sees another one half done.
\<close>

definition SetLogLevel :: "Level \<Rightarrow> state \<Rightarrow> state" where
  "SetLogLevel lvl s = s\<lparr>logLevel := lvl\<rparr>"

definition NewFd :: "os_File \<Rightarrow> FileLog" where
  "NewFd w = \<lparr>writer = w, path = ''''\<rparr>"

definition NewFile :: "string \<Rightarrow> go_error + os_File \<Rightarrow> go_error + FileLog" where
  "NewFile f opened =
     (case opened of
        Inl err \<Rightarrow> Inl err
      | Inr w \<Rightarrow> Inr ((NewFd w)\<lparr>path := f\<rparr>))"

text \<open>
  \<^verbatim>\<open>runtime.Caller(1)\<close> answers \<open>Some (file, line)\<close>, or \<open>None\<close> when \<^verbatim>\<open>ok\<close> is false.
  \<open>here\<close> is the \<^verbatim>\<open>Caller\<close> literal that each entry point builds from the answer.
\<close>

type_synonym caller_info = "(string \<times> int) option"

definition here :: "caller_info \<Rightarrow> Caller" where
  "here rc =
     (case (case rc of None \<Rightarrow> (''<unknown>'', 0) | Some fl \<Rightarrow> fl) of
        (file, ln) \<Rightarrow> \<lparr>filename = filename_fn file, line = ln\<rparr>)"

text \<open>\<^verbatim>\<open>queue <- m\<close> on \<^verbatim>\<open>make(chan *Message, 32)\<close>: the sender waits while 32 are buffered.\<close>

definition queue_send :: "Message \<Rightarrow> state \<Rightarrow> state option" where
  "queue_send m s =
     (if length (queue s) < 32 then Some (s\<lparr>queue := queue s @ [m]\<rparr>) else None)"

text \<open>\<^verbatim>\<open>quit_signal <- '\x00'\<close> on \<^verbatim>\<open>make(chan byte, 1)\<close>.\<close>

definition quit_signal_send :: "state \<Rightarrow> state option" where
  "quit_signal_send s =
     (if quit_signal s < 1 then Some (s\<lparr>quit_signal := quit_signal s + 1\<rparr>) else None)"

text \<open>
  The \<^verbatim>\<open>Fprintf\<close> of the daemon with the format \<^verbatim>\<open>"[%5s @ %s][%s:%d] %s%s\n"\<close>.
\<close>

definition daemon_line :: "string \<Rightarrow> string \<Rightarrow> Caller \<Rightarrow> string \<Rightarrow> string \<Rightarrow> string" where
  "daemon_line name stamp c pre text =
     ''['' @ pad_left 5 CHR '' '' name @ '' @ '' @ stamp @ ''][''
       @ filename c @ '':'' @ dec_int (line c) @ ''] '' @ pre @ text @ [CHR 0x0A]"

text \<open>
  The daemon, statement by statement. \<open>daemon_entry\<close> is its first line. Each turn of
  the loop is one of the two cases of the \<^verbatim>\<open>select\<close>: \<open>daemon_termsig\<close> takes a byte from
  \<^verbatim>\<open>termsig\<close> and returns; \<open>daemon_msg\<close> takes the oldest message, writes its line to
  \<^verbatim>\<open>logger.writer\<close> and, for a FATAL message, then sends on \<^verbatim>\<open>quit_signal\<close>. A level
  outside the table makes the indexing panic, which ends the process.
\<close>

definition daemon_entry :: "state \<Rightarrow> state" where
  "daemon_entry s = s\<lparr>has_daemon := True\<rparr>"

definition daemon_termsig :: "state \<Rightarrow> state option" where
  "daemon_termsig s =
     (if 0 < termsig s then Some (s\<lparr>termsig := termsig s - 1\<rparr>) else None)"

definition daemon_msg :: "Time \<Rightarrow> state \<Rightarrow> state option" where
  "daemon_msg now s =
     (case queue s of
        [] \<Rightarrow> None
      | msg # rest \<Rightarrow>
          (case level_string_at (level msg) of
             None \<Rightarrow> Some (s\<lparr>queue := rest, status := Panicked\<rparr>)
           | Some name \<Rightarrow>
               let s1 = s\<lparr>queue := rest,
                          written := written s @
                            [(writer (logger s),
                              daemon_line name (Format_stamp now) (caller msg) (prefix s)
                                (message msg))]\<rparr>
               in if level msg = FATAL then quit_signal_send s1 else Some s1))"

definition SetPrefix :: "string \<Rightarrow> state \<Rightarrow> state" where
  "SetPrefix pre s = s\<lparr>prefix := pre\<rparr>"

definition OpenFd :: "os_File \<Rightarrow> state \<Rightarrow> state" where
  "OpenFd fd s = s\<lparr>logger := NewFd fd\<rparr>"

text \<open>\<^verbatim>\<open>go daemon()\<close> creates a goroutine; its body runs later, when it is scheduled.\<close>

definition go_daemon :: "state \<Rightarrow> state" where
  "go_daemon s = s\<lparr>starting := starting s + 1\<rparr>"

definition Start :: "state \<Rightarrow> state" where
  "Start s = (if \<not> has_daemon s then go_daemon s else s)"

definition Stop :: "state \<Rightarrow> state option" where
  "Stop s =
     (if has_daemon s
      then (if termsig s < 1
            then Some (s\<lparr>termsig := termsig s + 1, has_daemon := False\<rparr>)
            else None)
      else Some (s\<lparr>has_daemon := False\<rparr>))"

text \<open>
  \<open>Fatal\<close> and \<open>Fatalf\<close> up to their wait on \<^verbatim>\<open>quit_signal\<close>, and \<open>Fatal_exit\<close>, the
  rest of both: the receive of one byte followed by \<^verbatim>\<open>os.Exit(1)\<close>.
\<close>

definition Fatal :: "string \<Rightarrow> caller_info \<Rightarrow> state \<Rightarrow> state option" where
  "Fatal msg rc s =
     (case queue_send \<lparr>caller = here rc, message = msg, level = FATAL\<rparr> s of
        None \<Rightarrow> None
      | Some s1 \<Rightarrow> Some (s1\<lparr>fatal_waiters := fatal_waiters s1 + 1\<rparr>))"

definition Fatalf :: "sprintf \<Rightarrow> string \<Rightarrow> go_value list \<Rightarrow> caller_info \<Rightarrow> state \<Rightarrow> state option" where
  "Fatalf spf format a rc s =
     (case queue_send \<lparr>caller = here rc, message = spf format a, level = FATAL\<rparr> s of
        None \<Rightarrow> None
      | Some s1 \<Rightarrow> Some (s1\<lparr>fatal_waiters := fatal_waiters s1 + 1\<rparr>))"

definition Fatal_exit :: "state \<Rightarrow> state option" where
  "Fatal_exit s =
     (if 0 < fatal_waiters s \<and> 0 < quit_signal s
      then Some (s\<lparr>quit_signal := quit_signal s - 1,
                   fatal_waiters := fatal_waiters s - 1,
                   status := Exited 1\<rparr>)
      else None)"

definition Error :: "string \<Rightarrow> caller_info \<Rightarrow> state \<Rightarrow> state option" where
  "Error msg rc s =
     (if logLevel s > ERROR then Some s
      else queue_send \<lparr>caller = here rc, message = msg, level = ERROR\<rparr> s)"

definition Errorf :: "sprintf \<Rightarrow> string \<Rightarrow> go_value list \<Rightarrow> caller_info \<Rightarrow> state \<Rightarrow> state option" where
  "Errorf spf format a rc s =
     (if logLevel s > ERROR then Some s
      else queue_send \<lparr>caller = here rc, message = spf format a, level = ERROR\<rparr> s)"

definition Warn :: "string \<Rightarrow> caller_info \<Rightarrow> state \<Rightarrow> state option" where
  "Warn msg rc s =
     (if logLevel s > WARN then Some s
      else queue_send \<lparr>caller = here rc, message = msg, level = WARN\<rparr> s)"

definition Warnf :: "sprintf \<Rightarrow> string \<Rightarrow> go_value list \<Rightarrow> caller_info \<Rightarrow> state \<Rightarrow> state option" where
  "Warnf spf format a rc s =
     (if logLevel s > WARN then Some s
      else queue_send \<lparr>caller = here rc, message = spf format a, level = WARN\<rparr> s)"

definition Info :: "string \<Rightarrow> caller_info \<Rightarrow> state \<Rightarrow> state option" where
  "Info msg rc s =
     (if logLevel s > INFO then Some s
      else queue_send \<lparr>caller = here rc, message = msg, level = INFO\<rparr> s)"

definition Infof :: "sprintf \<Rightarrow> string \<Rightarrow> go_value list \<Rightarrow> caller_info \<Rightarrow> state \<Rightarrow> state option" where
  "Infof spf format a rc s =
     (if logLevel s > INFO then Some s
      else queue_send \<lparr>caller = here rc, message = spf format a, level = INFO\<rparr> s)"

definition Debug :: "string \<Rightarrow> caller_info \<Rightarrow> state \<Rightarrow> state option" where
  "Debug msg rc s =
     (if logLevel s > DEBUG then Some s
      else queue_send \<lparr>caller = here rc, message = msg, level = DEBUG\<rparr> s)"

definition Debugf :: "sprintf \<Rightarrow> string \<Rightarrow> go_value list \<Rightarrow> caller_info \<Rightarrow> state \<Rightarrow> state option" where
  "Debugf spf format a rc s =
     (if logLevel s > DEBUG then Some s
      else queue_send \<lparr>caller = here rc, message = spf format a, level = DEBUG\<rparr> s)"

text \<open>
  \<open>Open\<close> and \<open>Rotate\<close> answer the returned \<^verbatim>\<open>err\<close> (\<open>None\<close> for \<^verbatim>\<open>nil\<close>) and the new
  state. \<open>opened\<close> is what \<^verbatim>\<open>os.OpenFile\<close> answers in the call; \<open>Rotate\<close> asks it only
  when the logger has a path. The failure report of \<open>Open\<close> goes to \<^verbatim>\<open>os.Stderr\<close>.
\<close>

definition Open ::
  "sprintf \<Rightarrow> string \<Rightarrow> go_error + os_File \<Rightarrow> caller_info \<Rightarrow> state \<Rightarrow> (go_error option \<times> state) option" where
  "Open spf f opened rc s =
     (case NewFile f opened of
        Inl err \<Rightarrow>
          Some (Some err,
                s\<lparr>written := written s @ [(Stderr, ''Failed to open file '' @ f @ '': '' @ err)]\<rparr>)
      | Inr fl \<Rightarrow>
          (case Infof spf ''Log ready.'' [] rc (s\<lparr>logger := fl\<rparr>) of
             None \<Rightarrow> None
           | Some s1 \<Rightarrow> Some (None, s1)))"

definition Rotate ::
  "sprintf \<Rightarrow> go_error + os_File \<Rightarrow> caller_info \<Rightarrow> state \<Rightarrow> (go_error option \<times> state) option" where
  "Rotate spf opened rc s =
     (let s0 = s\<lparr>synced := synced s @ [writer (logger s)]\<rparr> in
      if path (logger s0) \<noteq> ''''
      then (case opened of
              Inl err \<Rightarrow>
                (case Errorf spf ''Reopen log file %s: %s''
                        [VString (path (logger s0)), VError err] rc s0 of
                   None \<Rightarrow> None
                 | Some s1 \<Rightarrow> Some (Some err, s1))
            | Inr newfd \<Rightarrow>
                (case Infof spf ''Reopened log file %s'' [VString (path (logger s0))] rc s0 of
                   None \<Rightarrow> None
                 | Some s1 \<Rightarrow>
                     Some (None, s1\<lparr>logger := (NewFd newfd)\<lparr>path := path (logger s1)\<rparr>\<rparr>)))
      else Some (None, s0))"

text \<open>The loop of \<open>ToLevel\<close> over \<^verbatim>\<open>range level_string\<close>, \<open>l\<close> being the index reached.\<close>

fun ToLevel_range :: "string \<Rightarrow> string list \<Rightarrow> int \<Rightarrow> Level" where
  "ToLevel_range str [] l = - 1"
| "ToLevel_range str (s # ss) l = (if str = s then l else ToLevel_range str ss (l + 1))"

definition ToLevel :: "(string \<Rightarrow> string) \<Rightarrow> string \<Rightarrow> Level" where
  "ToLevel upper str = ToLevel_range (upper str) level_string 0"

section \<open>The process as a transition system\<close>

text \<open>
  The entry points that send a message and may return without sending it, with the level
  each one is named after and the text it puts in the envelope.
\<close>

datatype emit_fn =
    Debug_of string | Debugf_of string "go_value list"
  | Info_of string | Infof_of string "go_value list"
  | Warn_of string | Warnf_of string "go_value list"
  | Error_of string | Errorf_of string "go_value list"

fun emit :: "sprintf \<Rightarrow> emit_fn \<Rightarrow> caller_info \<Rightarrow> state \<Rightarrow> state option" where
  "emit spf (Debug_of msg) rc s = Debug msg rc s"
| "emit spf (Debugf_of format a) rc s = Debugf spf format a rc s"
| "emit spf (Info_of msg) rc s = Info msg rc s"
| "emit spf (Infof_of format a) rc s = Infof spf format a rc s"
| "emit spf (Warn_of msg) rc s = Warn msg rc s"
| "emit spf (Warnf_of format a) rc s = Warnf spf format a rc s"
| "emit spf (Error_of msg) rc s = Error msg rc s"
| "emit spf (Errorf_of format a) rc s = Errorf spf format a rc s"

fun emit_level :: "emit_fn \<Rightarrow> Level" where
  "emit_level (Debug_of msg) = DEBUG"
| "emit_level (Debugf_of format a) = DEBUG"
| "emit_level (Info_of msg) = INFO"
| "emit_level (Infof_of format a) = INFO"
| "emit_level (Warn_of msg) = WARN"
| "emit_level (Warnf_of format a) = WARN"
| "emit_level (Error_of msg) = ERROR"
| "emit_level (Errorf_of format a) = ERROR"

fun emit_text :: "sprintf \<Rightarrow> emit_fn \<Rightarrow> string" where
  "emit_text spf (Debug_of msg) = msg"
| "emit_text spf (Debugf_of format a) = spf format a"
| "emit_text spf (Info_of msg) = msg"
| "emit_text spf (Infof_of format a) = spf format a"
| "emit_text spf (Warn_of msg) = msg"
| "emit_text spf (Warnf_of format a) = spf format a"
| "emit_text spf (Error_of msg) = msg"
| "emit_text spf (Errorf_of format a) = spf format a"

text \<open>A call of the public interface by some goroutine of the host program.\<close>

datatype call =
    SetLogLevel_call Level
  | SetPrefix_call string
  | Open_call string "go_error + os_File" caller_info
  | OpenFd_call os_File
  | Start_call
  | Stop_call
  | Fatal_call string caller_info
  | Fatalf_call string "go_value list" caller_info
  | Emit_call emit_fn caller_info
  | Rotate_call "go_error + os_File" caller_info

fun call_step :: "sprintf \<Rightarrow> call \<Rightarrow> state \<Rightarrow> state option" where
  "call_step spf (SetLogLevel_call lvl) s = Some (SetLogLevel lvl s)"
| "call_step spf (SetPrefix_call pre) s = Some (SetPrefix pre s)"
| "call_step spf (Open_call f opened rc) s = map_option snd (Open spf f opened rc s)"
| "call_step spf (OpenFd_call fd) s = Some (OpenFd fd s)"
| "call_step spf Start_call s = Some (Start s)"
| "call_step spf Stop_call s = Stop s"
| "call_step spf (Fatal_call msg rc) s = Fatal msg rc s"
| "call_step spf (Fatalf_call format a rc) s = Fatalf spf format a rc s"
| "call_step spf (Emit_call e rc) s = emit spf e rc s"
| "call_step spf (Rotate_call opened rc) s = map_option snd (Rotate spf opened rc s)"

text \<open>
  One step of the process: a call of the interface that gets through, a created daemon
  running its first statement, a daemon taking one of the two cases of its \<^verbatim>\<open>select\<close>, or
  a caller of \<^verbatim>\<open>Fatal\<close> getting its byte and leaving through \<^verbatim>\<open>os.Exit\<close>. Nothing
  moves once the process has ended. The goroutines interleave at this grain: a call or a
  turn of the daemon that would have to wait is not taken until it can run to its end.
\<close>

datatype action =
    Call call
  | Daemon_starts
  | Daemon_returns
  | Daemon_writes Time
  | Fatal_exits

fun step :: "sprintf \<Rightarrow> action \<Rightarrow> state \<Rightarrow> state option" where
  "step spf (Call c) s = (if status s = Running then call_step spf c s else None)"
| "step spf Daemon_starts s =
     (if status s = Running \<and> 0 < starting s
      then Some ((daemon_entry s)\<lparr>starting := starting s - 1, looping := looping s + 1\<rparr>)
      else None)"
| "step spf Daemon_returns s =
     (if status s = Running \<and> 0 < looping s
      then map_option (\<lambda>s1. s1\<lparr>looping := looping s1 - 1\<rparr>) (daemon_termsig s)
      else None)"
| "step spf (Daemon_writes now) s =
     (if status s = Running \<and> 0 < looping s then daemon_msg now s else None)"
| "step spf Fatal_exits s = (if status s = Running then Fatal_exit s else None)"

fun run :: "sprintf \<Rightarrow> action list \<Rightarrow> state \<Rightarrow> state option" where
  "run spf [] s = Some s"
| "run spf (a # as) s = (case step spf a s of None \<Rightarrow> None | Some s1 \<Rightarrow> run spf as s1)"

text \<open>
  The state when \<^verbatim>\<open>main\<close> begins: the initialisers of the package-level variables,
  followed by \<^verbatim>\<open>init()\<close>, which is \<^verbatim>\<open>go daemon()\<close>.
\<close>

definition package_vars :: state where
  "package_vars =
     \<lparr>logLevel = INFO, queue = [], quit_signal = 0, logger = NewFd Stderr, termsig = 0,
      prefix = '''', has_daemon = False, written = [], synced = [], starting = 0,
      looping = 0, fatal_waiters = 0, status = Running\<rparr>"

definition init_state :: state where
  "init_state = go_daemon package_vars"

text \<open>The FATAL envelopes that the calls of \<^verbatim>\<open>Fatal\<close> and \<^verbatim>\<open>Fatalf\<close> in a run build.\<close>

fun fatal_envelope :: "sprintf \<Rightarrow> action \<Rightarrow> Message list" where
  "fatal_envelope spf (Call (Fatal_call msg rc)) =
     [\<lparr>caller = here rc, message = msg, level = FATAL\<rparr>]"
| "fatal_envelope spf (Call (Fatalf_call format a rc)) =
     [\<lparr>caller = here rc, message = spf format a, level = FATAL\<rparr>]"
| "fatal_envelope spf a = []"

definition fatal_envelopes :: "sprintf \<Rightarrow> action list \<Rightarrow> Message list" where
  "fatal_envelopes spf as = concat (map (fatal_envelope spf) as)"

section \<open>The earlier revision\<close>

text \<open>
  The second source file, \<^verbatim>\<open>src/unnamed/part_000\<close>, is an earlier revision of the same
  package. Its \<^verbatim>\<open>Message\<close> has
  no caller, it has no \<^verbatim>\<open>Start\<close>/\<^verbatim>\<open>Stop\<close>, and its daemon compares the level with the
  threshold once more before it writes. The definitions taken from it carry the suffix
  \<open>_r0\<close>; \<^verbatim>\<open>level_string\<close>, \<^verbatim>\<open>FileLog\<close> and \<^verbatim>\<open>NewFd\<close> are the same in both files.
\<close>

record Message_r0 =
  message_r0 :: string
  level_r0 :: Level

record state_r0 =
  logLevel_r0 :: Level
  queue_r0 :: "Message_r0 list"
  quit_signal_r0 :: nat
  logger_r0 :: FileLog
  prefix_r0 :: string
  written_r0 :: "(os_File \<times> string) list"
  fatal_waiters_r0 :: nat
  status_r0 :: status


definition quit_signal_send_r0 :: "state_r0 \<Rightarrow> state_r0 option" where
  "quit_signal_send_r0 s =
     (if quit_signal_r0 s < 1 then Some (s\<lparr>quit_signal_r0 := quit_signal_r0 s + 1\<rparr>) else None)"

text \<open>The \<^verbatim>\<open>Fprintf\<close> of this daemon has the format \<^verbatim>\<open>"[%5s @ %s] %s%s\n"\<close>.\<close>

definition daemon_line_r0 :: "string \<Rightarrow> string \<Rightarrow> string \<Rightarrow> string \<Rightarrow> string" where
  "daemon_line_r0 name stamp pre text =
     ''['' @ pad_left 5 CHR '' '' name @ '' @ '' @ stamp @ ''] '' @ pre @ text @ [CHR 0x0A]"

text \<open>One turn of the loop of this daemon, whose \<^verbatim>\<open>select\<close> has the single case of a message.\<close>

definition daemon_r0 :: "Time \<Rightarrow> state_r0 \<Rightarrow> state_r0 option" where
  "daemon_r0 now s =
     (case queue_r0 s of
        [] \<Rightarrow> None
      | msg # rest \<Rightarrow>
          if level_r0 msg \<ge> logLevel_r0 s
          then (case level_string_at (level_r0 msg) of
                  None \<Rightarrow> Some (s\<lparr>queue_r0 := rest, status_r0 := Panicked\<rparr>)
                | Some name \<Rightarrow>
                    let s1 = s\<lparr>queue_r0 := rest,
                               written_r0 := written_r0 s @
                                 [(writer (logger_r0 s),
                                   daemon_line_r0 name (Format_stamp now) (prefix_r0 s)
                                     (message_r0 msg))]\<rparr>
                    in if level_r0 msg = FATAL then quit_signal_send_r0 s1 else Some s1)
          else let s1 = s\<lparr>queue_r0 := rest\<rparr>
               in if level_r0 msg = FATAL then quit_signal_send_r0 s1 else Some s1)"




section \<open>Invariants of the runs\<close>

text \<open>
  \<open>fatal_line_written fs s\<close>: the daemon of golog.go has written the line of one of the
  envelopes \<open>fs\<close>, under the level name FATAL, with some clock reading and prefix, to
  some file. \<open>barrier_inv fs s\<close> is what every state of a run satisfies, \<open>fs\<close> being the
  FATAL envelopes built so far: the levels on the queue are those of the table, a FATAL
  envelope on the queue is one of \<open>fs\<close>, the process has not panicked and has left with
  code 1 if it has left, and a byte on \<^verbatim>\<open>quit_signal\<close> or an exit means that a FATAL line
  has been written.
\<close>

definition fatal_line_written :: "Message list \<Rightarrow> state \<Rightarrow> bool" where
  "fatal_line_written fs s \<longleftrightarrow>
     (\<exists>m \<in> set fs. \<exists>w now pre.
        (w, daemon_line ''FATAL'' (Format_stamp now) (caller m) pre (message m)) \<in> set (written s))"

definition barrier_inv :: "Message list \<Rightarrow> state \<Rightarrow> bool" where
  "barrier_inv fs s \<longleftrightarrow>
     (\<forall>m \<in> set (queue s). 0 \<le> level m \<and> level m \<le> 4 \<and> (level m = FATAL \<longrightarrow> m \<in> set fs))
     \<and> (status s = Running \<or> status s = Exited 1)
     \<and> (0 < quit_signal s \<or> status s = Exited 1 \<longrightarrow> fatal_line_written fs s)"

text \<open>\<open>sends ms s s'\<close>: from \<open>s\<close> to \<open>s'\<close> the envelopes \<open>ms\<close> have joined the queue, files have
  at most been written to, and neither the signal channel nor the status has changed.\<close>

definition sends :: "Message list \<Rightarrow> state \<Rightarrow> state \<Rightarrow> bool" where
  "sends ms s s' \<longleftrightarrow>
     queue s' = queue s @ ms \<and> status s' = status s \<and> quit_signal s' = quit_signal s
     \<and> (\<exists>ws. written s' = written s @ ws)"


section \<open>Concrete inputs for the evaluations\<close>

definition rotate_example :: state where
  "rotate_example = init_state\<lparr>logger := \<lparr>writer = Handle 3, path = ''/var/log/app.log''\<rparr>\<rparr>"

definition clock_example :: Time where
  "clock_example =
     \<lparr>t_month = October, t_day = 31, t_hour = 15, t_minute = 5, t_second = 7,
      t_nanosecond = 42000000\<rparr>"

definition daemon_r0_example :: state_r0 where
  "daemon_r0_example =
     \<lparr>logLevel_r0 = INFO, queue_r0 = [\<lparr>message_r0 = ''hello'', level_r0 = INFO\<rparr>],
      quit_signal_r0 = 0, logger_r0 = NewFd Stderr, prefix_r0 = ''app: '', written_r0 = [],
      fatal_waiters_r0 = 0, status_r0 = Running\<rparr>"

definition daemon_example :: state where
  "daemon_example =
     init_state\<lparr>looping := 1, starting := 0, has_daemon := True, prefix := ''app: '',
       queue := [\<lparr>caller = \<lparr>filename = ''main.go'', line = 12\<rparr>, message = ''hello'',
                  level = INFO\<rparr>]\<rparr>"









text \<open>
  Runs of golog.go in which \<^verbatim>\<open>Start()\<close> is called before a created daemon has run its
  first statement: at the very beginning of \<^verbatim>\<open>main\<close>, and twice in a row after a
  \<^verbatim>\<open>Stop()\<close> that the daemon has obeyed.
\<close>

definition early_start_run :: "action list" where
  "early_start_run = [Call Start_call, Daemon_starts, Daemon_starts]"

definition restart_run :: "action list" where
  "restart_run =
     [Daemon_starts, Call Stop_call, Daemon_returns, Call Start_call, Call Start_call,
      Daemon_starts, Daemon_starts]"

text \<open>A run with an INFO and a FATAL message of which the daemon has written the first.\<close>

definition mixed_run :: "action list" where
  "mixed_run =
     [Call (Emit_call (Info_of ''y'') None), Call (Fatal_call ''z'' None), Daemon_starts,
      Daemon_writes clock_example]"

definition mixed_state :: state where
  "mixed_state =
     init_state\<lparr>has_daemon := True, starting := 0, looping := 1, fatal_waiters := 1,
       queue := [\<lparr>caller = \<lparr>filename = ''<unknown>'', line = 0\<rparr>, message = ''z'',
                  level = FATAL\<rparr>],
       written := [(Stderr, ''[ INFO @ Oct 31 15:05:07.042][<unknown>:0] y'' @ [CHR 0x0A])]\<rparr>"

text \<open>
  A run of golog.go in which two goroutines call \<^verbatim>\<open>Fatal\<close> one after the other, the daemon
  writes the first message, and one of the two callers receives the byte.
\<close>

definition two_callers_run :: "action list" where
  "two_callers_run =
     [Daemon_starts, Call (Fatal_call ''a'' None), Call (Fatal_call ''b'' None),
      Daemon_writes clock_example, Fatal_exits]"

definition two_callers_state :: state where
  "two_callers_state =
     init_state\<lparr>has_daemon := True, starting := 0, looping := 1, fatal_waiters := 1,
       status := Exited 1,
       queue := [\<lparr>caller = \<lparr>filename = ''<unknown>'', line = 0\<rparr>, message = ''b'',
                  level = FATAL\<rparr>],
       written := [(Stderr, ''[FATAL @ Oct 31 15:05:07.042][<unknown>:0] a'' @ [CHR 0x0A])]\<rparr>"

section \<open>Properties\<close>

subsection \<open>Auxiliary facts\<close>

lemmas Level_defs = DEBUG_def INFO_def WARN_def ERROR_def FATAL_def INVALID_def

lemmas emit_defs = Debug_def Debugf_def Info_def Infof_def Warn_def Warnf_def Error_def Errorf_def

lemma level_string_at_cases:
  "level_string_at l = Some name \<longleftrightarrow>
     (l = 0 \<and> name = ''DEBUG'') \<or> (l = 1 \<and> name = ''INFO'') \<or> (l = 2 \<and> name = ''WARN'')
     \<or> (l = 3 \<and> name = ''ERROR'') \<or> (l = 4 \<and> name = ''FATAL'')"
proof -
  have "0 \<le> l \<and> l < 5 \<longleftrightarrow> l = 0 \<or> l = 1 \<or> l = 2 \<or> l = 3 \<or> l = 4"
    by arith
  then show ?thesis
    by (auto simp: level_string_at_def level_string_def)
qed

lemma level_string_at_None: "level_string_at l = None \<longleftrightarrow> l < 0 \<or> 4 < l"
  by (auto simp: level_string_at_def level_string_def)

lemma emit_eq:
  "emit spf e rc s =
     (if logLevel s \<le> emit_level e
      then (if length (queue s) < 32
            then Some (s\<lparr>queue := queue s @
                         [\<lparr>caller = here rc, message = emit_text spf e, level = emit_level e\<rparr>]\<rparr>)
            else None)
      else Some s)"
  by (cases e) (simp_all add: emit_defs queue_send_def not_less)

lemma emit_level_range: "0 \<le> emit_level e \<and> emit_level e \<le> 3"
  by (cases e) (simp_all add: Level_defs)

lemma emit_sends:
  assumes "emit spf e rc s = Some s'"
  shows "sends [] s s' \<or>
         sends [\<lparr>caller = here rc, message = emit_text spf e, level = emit_level e\<rparr>] s s'"
  using assms by (auto simp: emit_eq sends_def split: if_splits)

lemma Open_sends:
  assumes "Open spf f opened rc s = Some (r, s')"
  shows "sends [] s s' \<or>
         sends [\<lparr>caller = here rc, message = spf ''Log ready.'' [], level = INFO\<rparr>] s s'"
  using assms
  by (auto simp: Open_def NewFile_def Infof_def queue_send_def sends_def
      split: sum.splits if_splits option.splits)

lemma Rotate_sends:
  assumes "Rotate spf opened rc s = Some (r, s')"
  shows "sends [] s s' \<or> (\<exists>text. sends [\<lparr>caller = here rc, message = text, level = INFO\<rparr>] s s')
         \<or> (\<exists>text. sends [\<lparr>caller = here rc, message = text, level = ERROR\<rparr>] s s')"
  using assms
  by (auto simp: Rotate_def Let_def Infof_def Errorf_def queue_send_def sends_def
      split: sum.splits if_splits option.splits)

lemma call_step_sends:
  assumes "call_step spf c s = Some s'"
  shows "\<exists>ms. sends ms s s' \<and>
           (\<forall>m \<in> set ms. 0 \<le> level m \<and> level m \<le> 4
              \<and> (level m = FATAL \<longrightarrow> m \<in> set (fatal_envelope spf (Call c))))"
proof (cases c)
  case (SetLogLevel_call lvl)
  with assms have "sends [] s s'" by (auto simp: SetLogLevel_def sends_def)
  then show ?thesis by (intro exI [of _ "[]"]) simp
next
  case (SetPrefix_call pre)
  with assms have "sends [] s s'" by (auto simp: SetPrefix_def sends_def)
  then show ?thesis by (intro exI [of _ "[]"]) simp
next
  case (Open_call f opened rc)
  with assms obtain r where "Open spf f opened rc s = Some (r, s')" by auto
  from Open_sends [OF this] show ?thesis
    by (auto simp: Level_defs)
next
  case (OpenFd_call fd)
  with assms have "sends [] s s'" by (auto simp: OpenFd_def sends_def)
  then show ?thesis by (intro exI [of _ "[]"]) simp
next
  case Start_call
  with assms have "sends [] s s'" by (auto simp: Start_def go_daemon_def sends_def)
  then show ?thesis by (intro exI [of _ "[]"]) simp
next
  case Stop_call
  with assms have "sends [] s s'" by (auto simp: Stop_def sends_def split: if_splits)
  then show ?thesis by (intro exI [of _ "[]"]) simp
next
  case (Fatal_call msg rc)
  with assms have "sends [\<lparr>caller = here rc, message = msg, level = FATAL\<rparr>] s s'"
    by (auto simp: Fatal_def queue_send_def sends_def split: if_splits)
  then show ?thesis using Fatal_call
    by (intro exI [of _ "[\<lparr>caller = here rc, message = msg, level = FATAL\<rparr>]"])
      (simp add: Level_defs)
next
  case (Fatalf_call format a rc)
  with assms have "sends [\<lparr>caller = here rc, message = spf format a, level = FATAL\<rparr>] s s'"
    by (auto simp: Fatalf_def queue_send_def sends_def split: if_splits)
  then show ?thesis using Fatalf_call
    by (intro exI [of _ "[\<lparr>caller = here rc, message = spf format a, level = FATAL\<rparr>]"])
      (simp add: Level_defs)
next
  case (Emit_call e rc)
  with assms have "emit spf e rc s = Some s'" by simp
  from emit_sends [OF this] emit_level_range [of e] show ?thesis
    by (auto simp: Level_defs)
next
  case (Rotate_call opened rc)
  with assms obtain r where "Rotate spf opened rc s = Some (r, s')" by auto
  from Rotate_sends [OF this] show ?thesis
    by (auto simp: Level_defs)
qed


lemma fatal_line_written_mono:
  assumes "fatal_line_written fs s" "set fs \<subseteq> set fs'" "set (written s) \<subseteq> set (written s')"
  shows "fatal_line_written fs' s'"
  using assms unfolding fatal_line_written_def by blast

lemma barrier_inv_call:
  assumes inv: "barrier_inv fs s" and st: "call_step spf c s = Some s'"
  shows "barrier_inv (fs @ fatal_envelope spf (Call c)) s'"
proof -
  from call_step_sends [OF st] obtain ms where
    ms: "sends ms s s'" and
    lv: "\<forall>m \<in> set ms. 0 \<le> level m \<and> level m \<le> 4
           \<and> (level m = FATAL \<longrightarrow> m \<in> set (fatal_envelope spf (Call c)))"
    by blast
  from ms have q: "queue s' = queue s @ ms" and stat: "status s' = status s"
    and sig: "quit_signal s' = quit_signal s" and wr: "set (written s) \<subseteq> set (written s')"
    by (auto simp: sends_def)
  have 1: "\<forall>m \<in> set (queue s'). 0 \<le> level m \<and> level m \<le> 4
             \<and> (level m = FATAL \<longrightarrow> m \<in> set (fs @ fatal_envelope spf (Call c)))"
    using inv lv q by (auto simp: barrier_inv_def)
  have 2: "status s' = Running \<or> status s' = Exited 1"
    using inv stat by (simp add: barrier_inv_def)
  have 3: "0 < quit_signal s' \<or> status s' = Exited 1 \<longrightarrow>
             fatal_line_written (fs @ fatal_envelope spf (Call c)) s'"
  proof
    assume "0 < quit_signal s' \<or> status s' = Exited 1"
    with inv stat sig have "fatal_line_written fs s" by (auto simp: barrier_inv_def)
    then show "fatal_line_written (fs @ fatal_envelope spf (Call c)) s'"
      by (rule fatal_line_written_mono) (use wr in auto)
  qed
  from 1 2 3 show ?thesis unfolding barrier_inv_def by blast
qed

lemma barrier_inv_daemon_msg:
  assumes inv: "barrier_inv fs s" and st: "daemon_msg now s = Some s'"
  shows "barrier_inv fs s'"
proof (cases "queue s")
  case Nil
  with st show ?thesis by (simp add: daemon_msg_def)
next
  case (Cons msg rest)
  with inv have lv: "0 \<le> level msg" "level msg \<le> 4" and fat: "level msg = FATAL \<longrightarrow> msg \<in> set fs"
    and rest: "\<forall>m \<in> set rest. 0 \<le> level m \<and> level m \<le> 4 \<and> (level m = FATAL \<longrightarrow> m \<in> set fs)"
    by (auto simp: barrier_inv_def)
  from lv obtain name where name: "level_string_at (level msg) = Some name"
    using level_string_at_None [of "level msg"] by (cases "level_string_at (level msg)") auto
  define ln where "ln = (writer (logger s),
      daemon_line name (Format_stamp now) (caller msg) (prefix s) (message msg))"
  show ?thesis
  proof (cases "level msg = FATAL")
    case False
    with st Cons name have s': "s' = s\<lparr>queue := rest, written := written s @ [ln]\<rparr>"
      by (simp add: daemon_msg_def Let_def ln_def)
    have "0 < quit_signal s \<or> status s = Exited 1 \<longrightarrow> fatal_line_written fs s'"
      using inv by (auto simp: barrier_inv_def s' fatal_line_written_def)
    with inv rest show ?thesis
      by (simp add: barrier_inv_def s')
  next
    case True
    with name have nm: "name = ''FATAL''"
      by (simp add: level_string_at_cases FATAL_def)
    from True st Cons name have s': "s' = s\<lparr>queue := rest, written := written s @ [ln],
        quit_signal := quit_signal s + 1\<rparr>"
      by (auto simp: daemon_msg_def Let_def ln_def quit_signal_send_def split: if_splits)
    from True fat have "msg \<in> set fs" by simp
    then have "fatal_line_written fs s'"
      unfolding fatal_line_written_def s' ln_def nm by auto
    with inv rest show ?thesis
      by (simp add: barrier_inv_def s')
  qed
qed

lemma barrier_inv_step:
  assumes inv: "barrier_inv fs s" and st: "step spf a s = Some s'"
  shows "barrier_inv (fs @ fatal_envelope spf a) s'"
proof (cases a)
  case (Call c)
  with st have "call_step spf c s = Some s'" by (simp split: if_splits)
  from barrier_inv_call [OF inv this] Call show ?thesis by simp
next
  case Daemon_starts
  with st have "s' = (daemon_entry s)\<lparr>starting := starting s - 1, looping := looping s + 1\<rparr>"
    by (simp split: if_splits)
  with inv Daemon_starts show ?thesis
    by (simp add: barrier_inv_def daemon_entry_def fatal_line_written_def)
next
  case Daemon_returns
  with st have "s' = s\<lparr>termsig := termsig s - 1, looping := looping s - 1\<rparr>"
    by (auto simp: daemon_termsig_def split: if_splits)
  with inv Daemon_returns show ?thesis
    by (simp add: barrier_inv_def fatal_line_written_def)
next
  case (Daemon_writes now)
  with st have "daemon_msg now s = Some s'" by (simp split: if_splits)
  from barrier_inv_daemon_msg [OF inv this] Daemon_writes show ?thesis by simp
next
  case Fatal_exits
  with st have s': "s' = s\<lparr>quit_signal := quit_signal s - 1,
      fatal_waiters := fatal_waiters s - 1, status := Exited 1\<rparr>" and q: "0 < quit_signal s"
    by (auto simp: Fatal_exit_def split: if_splits)
  from inv q have "fatal_line_written fs s" by (simp add: barrier_inv_def)
  then have "fatal_line_written fs s'" by (simp add: fatal_line_written_def s')
  with inv Fatal_exits show ?thesis
    by (simp add: barrier_inv_def s')
qed

lemma barrier_inv_run:
  assumes "barrier_inv fs s" "run spf acts s = Some s'"
  shows "barrier_inv (fs @ fatal_envelopes spf acts) s'"
  using assms
proof (induction acts arbitrary: fs s)
  case Nil
  then show ?case by (simp add: fatal_envelopes_def)
next
  case (Cons a acts)
  from Cons.prems(2) obtain s1 where s1: "step spf a s = Some s1" and r: "run spf acts s1 = Some s'"
    by (auto split: option.splits)
  from barrier_inv_step [OF Cons.prems(1) s1] have "barrier_inv (fs @ fatal_envelope spf a) s1" .
  from Cons.IH [OF this r] show ?case by (simp add: fatal_envelopes_def)
qed

lemma barrier_inv_init: "barrier_inv [] init_state"
  by (simp add: barrier_inv_def init_state_def go_daemon_def package_vars_def)

lemma reachable_inv:
  assumes "run spf acts init_state = Some s"
  shows "barrier_inv (fatal_envelopes spf acts) s"
  using barrier_inv_run [OF barrier_inv_init assms] by simp

lemma Fatal_eq:
  "Fatal msg rc s =
     (if length (queue s) < 32
      then Some (s\<lparr>queue := queue s @ [\<lparr>caller = here rc, message = msg, level = FATAL\<rparr>],
                   fatal_waiters := fatal_waiters s + 1\<rparr>)
      else None)"
  by (simp add: Fatal_def queue_send_def)









lemma reachable_levels:
  assumes "run spf acts init_state = Some s"
  shows "status s \<noteq> Panicked \<and>
     (\<forall>m \<in> set (queue s). level m \<in> {DEBUG, INFO, WARN, ERROR, FATAL}
        \<and> level_string_at (level m) \<noteq> None)"
proof -
  have "0 \<le> l \<and> l \<le> 4 \<longleftrightarrow> l \<in> {DEBUG, INFO, WARN, ERROR, FATAL}" for l :: int
    unfolding Level_defs by auto
  with reachable_inv [OF assms] show ?thesis
    by (auto simp: barrier_inv_def level_string_at_None)
qed

lemma reachable_daemon_no_panic:
  assumes "run spf acts init_state = Some s" "daemon_msg now s = Some s'"
  shows "status s' \<noteq> Panicked"
  using barrier_inv_daemon_msg [OF reachable_inv [OF assms(1)] assms(2)]
  by (auto simp: barrier_inv_def)

lemma call_step_levels:
  assumes "call_step spf c s0 = Some s1"
  shows "\<exists>ms. queue s1 = queue s0 @ ms \<and> (\<forall>m \<in> set ms. level m \<in> {DEBUG, INFO, WARN, ERROR, FATAL})"
proof -
  have "0 \<le> l \<and> l \<le> 4 \<longleftrightarrow> l \<in> {DEBUG, INFO, WARN, ERROR, FATAL}" for l :: int
    unfolding Level_defs by auto
  with call_step_sends [OF assms] show ?thesis
    unfolding sends_def by metis
qed

lemma level_string_at_table:
  "l \<in> {DEBUG, INFO, WARN, ERROR, FATAL} \<Longrightarrow> level_string_at l = Some (level_string ! nat l)"
  by (auto simp: Level_defs level_string_at_def level_string_def)

lemma Start_guard:
  "Start s = (if has_daemon s then s else s\<lparr>starting := starting s + 1\<rparr>)"
  by (simp add: Start_def go_daemon_def)

lemma stamp_example: "Format_stamp clock_example = ''Oct 31 15:05:07.042''"
  by (simp add: Format_stamp_def clock_example_def pad_left_def digit_char_def)

lemma daemon_msg_writes:
  assumes "daemon_msg now s = Some s'"
  shows "\<exists>msg. queue s = msg # queue s' \<and>
     (case level_string_at (level msg) of
        None \<Rightarrow> written s' = written s \<and> status s' = Panicked
      | Some name \<Rightarrow>
          pad_left 5 CHR '' '' name \<in> {''DEBUG'', '' INFO'', '' WARN'', ''ERROR'', ''FATAL''} \<and>
          written s' = written s @
            [(writer (logger s),
              ''['' @ pad_left 5 CHR '' '' name @ '' @ '' @ Format_stamp now @ ''][''
                @ filename (caller msg) @ '':'' @ dec_int (line (caller msg)) @ ''] ''
                @ prefix s @ message msg @ [CHR 0x0A])])"
proof (cases "queue s")
  case Nil
  with assms show ?thesis by (simp add: daemon_msg_def)
next
  case (Cons msg rest)
  show ?thesis
  proof (cases "level_string_at (level msg)")
    case None
    with assms Cons show ?thesis by (auto simp: daemon_msg_def)
  next
    case (Some name)
    then have n: "pad_left 5 CHR '' '' name \<in> {''DEBUG'', '' INFO'', '' WARN'', ''ERROR'', ''FATAL''}"
      by (auto simp: level_string_at_cases pad_left_def)
    from assms Cons Some n show ?thesis
      by (auto simp: daemon_msg_def Let_def daemon_line_def quit_signal_send_def
          split: if_splits)
  qed
qed

lemma daemon_r0_writes:
  assumes "daemon_r0 now r = Some r'"
  shows "\<exists>msg. queue_r0 r = msg # queue_r0 r' \<and>
     (if level_r0 msg < logLevel_r0 r then written_r0 r' = written_r0 r
      else case level_string_at (level_r0 msg) of
        None \<Rightarrow> written_r0 r' = written_r0 r \<and> status_r0 r' = Panicked
      | Some name \<Rightarrow>
          written_r0 r' = written_r0 r @
            [(writer (logger_r0 r),
              ''['' @ pad_left 5 CHR '' '' name @ '' @ '' @ Format_stamp now @ ''] ''
                @ prefix_r0 r @ message_r0 msg @ [CHR 0x0A])])"
proof (cases "queue_r0 r")
  case Nil
  with assms show ?thesis by (simp add: daemon_r0_def)
next
  case (Cons msg rest)
  with assms show ?thesis
    by (auto simp: daemon_r0_def Let_def daemon_line_r0_def quit_signal_send_r0_def
        split: if_splits option.splits)
qed

lemma daemon_example_step:
  "daemon_msg clock_example daemon_example =
     Some (daemon_example\<lparr>queue := [],
             written := [(Stderr, ''[ INFO @ Oct 31 15:05:07.042][main.go:12] app: hello'' @ [CHR 0x0A])]\<rparr>)"
  by (simp add: daemon_msg_def daemon_example_def init_state_def go_daemon_def package_vars_def
      NewFd_def level_string_at_def level_string_def INFO_def FATAL_def Let_def daemon_line_def
      stamp_example pad_left_def digit_char_def dec_int_def)

lemma daemon_r0_example_step:
  "daemon_r0 clock_example daemon_r0_example =
     Some (daemon_r0_example\<lparr>queue_r0 := [],
             written_r0 := [(Stderr, ''[ INFO @ Oct 31 15:05:07.042] app: hello'' @ [CHR 0x0A])]\<rparr>)"
  by (simp add: daemon_r0_def daemon_r0_example_def
      NewFd_def level_string_at_def level_string_def INFO_def FATAL_def Let_def daemon_line_r0_def
      stamp_example pad_left_def)

lemma daemon_line_bracket: "CHR ''['' \<in> set (tl (daemon_line name stamp c pre text))"
  by (simp add: daemon_line_def)

lemmas run_defs = init_state_def go_daemon_def package_vars_def NewFd_def daemon_entry_def
  daemon_termsig_def Start_def Stop_def



lemma early_start_states:
  "run Sprintf_s early_start_run init_state =
     Some (init_state\<lparr>has_daemon := True, starting := 0, looping := 2\<rparr>)"
  "run Sprintf_s restart_run init_state =
     Some (init_state\<lparr>has_daemon := True, starting := 0, looping := 2\<rparr>)"
  by (simp_all add: early_start_run_def restart_run_def run_defs)

lemma mixed_run_state: "run Sprintf_s mixed_run init_state = Some mixed_state"
  by (simp add: mixed_run_def mixed_state_def run_defs Info_def Fatal_def queue_send_def
      here_def filename_fn_def daemon_msg_def level_string_at_def
      level_string_def FATAL_def INFO_def Let_def daemon_line_def stamp_example pad_left_def
      dec_int_def digit_char_def)

lemma two_digits:
  assumes "n < 100"
  shows "pad_left 2 CHR ''0'' (dec_nat n) = [digit_char (n div 10), digit_char (n mod 10)]"
proof (cases "n < 10")
  case True
  then show ?thesis by (simp add: pad_left_def digit_char_def)
next
  case False
  with assms have "n div 10 < 10" by simp
  with False show ?thesis
    by (simp add: pad_left_def dec_nat.simps [of n] dec_nat.simps [of "n div 10"])
qed

lemma three_digits:
  assumes "n < 1000"
  shows "pad_left 3 CHR ''0'' (dec_nat n) =
     [digit_char (n div 100), digit_char (n div 10 mod 10), digit_char (n mod 10)]"
proof -
  consider "n < 10" | "10 \<le> n" "n < 100" | "100 \<le> n" by linarith
  then show ?thesis
  proof cases
    case 1
    then show ?thesis by (simp add: pad_left_def digit_char_def numeral_2_eq_2)
  next
    case 2
    then have "n div 10 < 10" "n div 100 = 0" by simp_all
    with 2 show ?thesis
      by (simp add: pad_left_def dec_nat.simps [of n] dec_nat.simps [of "n div 10"] digit_char_def)
  next
    case 3
    with assms have a: "\<not> n < 10" "\<not> n div 10 < 10" "n div 10 div 10 < 10" "n div 10 div 10 = n div 100"
      by (simp_all add: div_mult2_eq [symmetric])
    show ?thesis
      using a
      by (simp add: pad_left_def dec_nat.simps [of n] dec_nat.simps [of "n div 10"]
          dec_nat.simps [of "n div 100"])
  qed
qed

lemma Format_stamp_shape:
  assumes "t_hour t < 24" "t_minute t < 60" "t_second t < 60" "t_nanosecond t < 1000000000"
  shows "Format_stamp t =
     month_abbrev (t_month t) @ '' '' @ dec_nat (t_day t) @ '' '' @
     [digit_char (t_hour t div 10), digit_char (t_hour t mod 10)] @ '':'' @
     [digit_char (t_minute t div 10), digit_char (t_minute t mod 10)] @ '':'' @
     [digit_char (t_second t div 10), digit_char (t_second t mod 10)] @ ''.'' @
     [digit_char (t_nanosecond t div 100000000),
      digit_char (t_nanosecond t div 10000000 mod 10),
      digit_char (t_nanosecond t div 1000000 mod 10)]"
proof -
  from assms have ms: "t_nanosecond t div 1000000 < 1000" by simp
  have d: "t_nanosecond t div 1000000 div 100 = t_nanosecond t div 100000000"
    "t_nanosecond t div 1000000 div 10 = t_nanosecond t div 10000000"
    by (simp_all add: div_mult2_eq [symmetric])
  from assms have "t_hour t < 100" "t_minute t < 100" "t_second t < 100" by simp_all
  then show ?thesis
    unfolding Format_stamp_def
    by (simp only: two_digits three_digits [OF ms] d)
qed

lemma month_abbrev_length: "length (month_abbrev m) = 3"
  by (cases m) simp_all


lemma padded_level_names:
  assumes "level_string_at l = Some name"
  shows "pad_left 5 CHR '' '' name \<in> {''DEBUG'', '' INFO'', '' WARN'', ''ERROR'', ''FATAL''}"
  using assms by (auto simp: level_string_at_cases pad_left_def)

text \<open>
  With two callers of \<open>Fatal\<close> the byte sent for the first line lets either of them
  leave: the process can end while the envelope of the second is still on the queue.
\<close>

lemma two_callers_run_state: "run Sprintf_s two_callers_run init_state = Some two_callers_state"
  by (simp add: two_callers_run_def two_callers_state_def run_defs Fatal_def queue_send_def
      here_def filename_fn_def daemon_msg_def level_string_at_def
      level_string_def FATAL_def INFO_def Let_def daemon_line_def stamp_example pad_left_def
      dec_int_def digit_char_def quit_signal_send_def Fatal_exit_def)


subsection \<open>The flush barrier of Fatal\<close>




subsection \<open>The threshold filter\<close>

text \<open>
  Claim C2. A call of \<open>Debug\<close>, \<open>Info\<close>, \<open>Warn\<close>, \<open>Error\<close> or of one of their
  formatted variants, whose level is \<open>L\<close>, sends its envelope exactly when the threshold
  is at most \<open>L\<close> (waiting for room while the queue holds 32); below the threshold it
  returns at once and the state is as it was.
\<close>

theorem emit_threshold:
  "emit spf e rc s =
     (if logLevel s \<le> emit_level e
      then (if length (queue s) < 32
            then Some (s\<lparr>queue := queue s @
                         [\<lparr>caller = here rc, message = emit_text spf e, level = emit_level e\<rparr>]\<rparr>)
            else None)
      else Some s)"
  by (cases e) (simp_all add: emit_defs queue_send_def not_less)

theorem emit_threshold_witness:
  "emit Sprintf_s (Debug_of ''x'') None package_vars = Some package_vars
   \<and> emit Sprintf_s (Infof_of ''y %s'' [VString ''z'']) (Some (''/src/app/main.go'', 12)) package_vars =
       Some (package_vars\<lparr>queue :=
               [\<lparr>caller = \<lparr>filename = ''main.go'', line = 12\<rparr>, message = ''y z'', level = 1\<rparr>]\<rparr>)"
  using emit_threshold [of Sprintf_s "Debug_of ''x''" None package_vars]
    emit_threshold [of Sprintf_s "Infof_of ''y %s'' [VString ''z'']" "Some (''/src/app/main.go'', 12)" package_vars]
  by (simp add: package_vars_def Level_defs here_def filename_fn_def)

subsection \<open>The line format\<close>

text \<open>
  Claim C3, as amended. A turn of the daemon of golog.go that does not panic writes one
  line to the writer of the current logger: \<open>[\<close>, the level name padded on the left
  to five characters, \<open> @ \<close>, the time stamp, \<open>][\<close>, the base file name of the caller,
  \<open>:\<close>, the line number, \<open>] \<close>, the prefix, the text and a newline. A turn of the
  daemon of the earlier revision writes nothing for a message below the threshold, and
  otherwise the same line without the segment of the caller: after the time stamp come
  \<open>] \<close>, the prefix, the text and a newline.
\<close>

theorem daemon_line_format:
  "(daemon_msg now s = Some s' \<longrightarrow>
      (\<exists>msg. queue s = msg # queue s' \<and>
         (case level_string_at (level msg) of
            None \<Rightarrow> written s' = written s \<and> status s' = Panicked
          | Some name \<Rightarrow>
              pad_left 5 CHR '' '' name \<in> {''DEBUG'', '' INFO'', '' WARN'', ''ERROR'', ''FATAL''} \<and>
              written s' = written s @
                [(writer (logger s),
                  ''['' @ pad_left 5 CHR '' '' name @ '' @ '' @ Format_stamp now @ ''][''
                    @ filename (caller msg) @ '':'' @ dec_int (line (caller msg)) @ ''] ''
                    @ prefix s @ message msg @ [CHR 0x0A])])))
   \<and> (t_hour now < 24 \<and> t_minute now < 60 \<and> t_second now < 60
        \<and> t_nanosecond now < 1000000000 \<longrightarrow>
      Format_stamp now =
        month_abbrev (t_month now) @ '' '' @ dec_nat (t_day now) @ '' '' @
        [digit_char (t_hour now div 10), digit_char (t_hour now mod 10)] @ '':'' @
        [digit_char (t_minute now div 10), digit_char (t_minute now mod 10)] @ '':'' @
        [digit_char (t_second now div 10), digit_char (t_second now mod 10)] @ ''.'' @
        [digit_char (t_nanosecond now div 100000000),
         digit_char (t_nanosecond now div 10000000 mod 10),
         digit_char (t_nanosecond now div 1000000 mod 10)])
   \<and> length (month_abbrev (t_month now)) = 3
   \<and> (daemon_r0 now r = Some r' \<longrightarrow>
      (\<exists>msg. queue_r0 r = msg # queue_r0 r' \<and>
         (if level_r0 msg < logLevel_r0 r then written_r0 r' = written_r0 r
          else case level_string_at (level_r0 msg) of
            None \<Rightarrow> written_r0 r' = written_r0 r \<and> status_r0 r' = Panicked
          | Some name \<Rightarrow>
              written_r0 r' = written_r0 r @
                [(writer (logger_r0 r),
                  ''['' @ pad_left 5 CHR '' '' name @ '' @ '' @ Format_stamp now @ ''] ''
                    @ prefix_r0 r @ message_r0 msg @ [CHR 0x0A])])))"
  using daemon_msg_writes [of now s s'] daemon_r0_writes [of now r r']
    Format_stamp_shape [of now] month_abbrev_length [of "t_month now"]
  by blast

theorem daemon_line_format_witness:
  "written (the (daemon_msg clock_example daemon_example)) =
     [(Stderr, ''[ INFO @ Oct 31 15:05:07.042][main.go:12] app: hello'' @ [CHR 0x0A])]
   \<and> written_r0 (the (daemon_r0 clock_example daemon_r0_example)) =
     [(Stderr, ''[ INFO @ Oct 31 15:05:07.042] app: hello'' @ [CHR 0x0A])]"
  using daemon_line_format [of clock_example daemon_example
      "the (daemon_msg clock_example daemon_example)" daemon_r0_example
      "the (daemon_r0 clock_example daemon_r0_example)"]
  by (simp add: daemon_example_step daemon_r0_example_step)

text \<open>
  The claim as first stated gives every line the segment of the caller. The line that the
  daemon of the earlier revision writes for an INFO message has none: it is not a line
  of the format of golog.go, whatever the name, stamp, caller, prefix and text.
\<close>

theorem daemon_r0_no_caller:
  "daemon_r0 clock_example daemon_r0_example =
     Some (daemon_r0_example\<lparr>queue_r0 := [],
             written_r0 := [(Stderr, ''[ INFO @ Oct 31 15:05:07.042] app: hello'' @ [CHR 0x0A])]\<rparr>)
   \<and> \<not> (\<exists>name stamp c pre text.
          ''[ INFO @ Oct 31 15:05:07.042] app: hello'' @ [CHR 0x0A] = daemon_line name stamp c pre text)"
proof -
  have "CHR ''['' \<notin> set (tl (''[ INFO @ Oct 31 15:05:07.042] app: hello'' @ [CHR 0x0A]))"
    by simp
  then have "\<not> (\<exists>name stamp c pre text.
          ''[ INFO @ Oct 31 15:05:07.042] app: hello'' @ [CHR 0x0A] = daemon_line name stamp c pre text)"
    using daemon_line_bracket by metis
  then show ?thesis
    using daemon_r0_example_step by simp
qed

subsection \<open>Parsing a level name\<close>

text \<open>
  Claim C4. \<open>ToLevel\<close> upper-cases its argument and compares the result, whole, with the
  five names of \<open>level_string\<close>: it answers the level whose name the upper-cased text is,
  and \<open>INVALID\<close>, which is \<open>-1\<close>, for every other text. Nothing shorter or longer than a
  name matches.
\<close>

theorem ToLevel_exact:
  "ToLevel upper str =
     (if upper str = ''DEBUG'' then DEBUG
      else if upper str = ''INFO'' then INFO
      else if upper str = ''WARN'' then WARN
      else if upper str = ''ERROR'' then ERROR
      else if upper str = ''FATAL'' then FATAL
      else INVALID)
   \<and> INVALID = - 1"
  by (simp add: ToLevel_def level_string_def Level_defs)

theorem ToLevel_exact_witness:
  "ToLevel ToUpper ''debug'' = DEBUG \<and> ToLevel ToUpper ''trace'' = INVALID
   \<and> ToLevel ToUpper ''FaTaL'' = FATAL \<and> ToLevel ToUpper ''deb'' = INVALID
   \<and> ToLevel ToUpper ''debugger'' = INVALID"
proof -
  have u: "ToUpper ''debug'' = ''DEBUG''" "ToUpper ''trace'' = ''TRACE''"
    "ToUpper ''FaTaL'' = ''FATAL''" "ToUpper ''deb'' = ''DEB''"
    "ToUpper ''debugger'' = ''DEBUGGER''"
    by code_simp+
  show ?thesis
    using ToLevel_exact [of ToUpper "''debug''"] ToLevel_exact [of ToUpper "''trace''"]
      ToLevel_exact [of ToUpper "''FaTaL''"] ToLevel_exact [of ToUpper "''deb''"]
      ToLevel_exact [of ToUpper "''debugger''"]
    by (simp add: u)
qed

subsection \<open>Changing the destination\<close>

text \<open>
  Claim C5. When the file cannot be opened, \<open>Open\<close> writes its report to standard
  error, returns the error of \<^verbatim>\<open>os.OpenFile\<close> and leaves the logger as it was. When the
  file opens, \<open>Open\<close> makes the new handle, which keeps the path, the current logger and
  then calls \<open>Infof\<close> with \<^verbatim>\<open>"Log ready."\<close>: the message takes the way of every INFO
  message, threshold included.
\<close>

theorem Open_outcomes:
  "Open spf f (Inl err) rc s =
     Some (Some err,
           s\<lparr>written := written s @ [(Stderr, ''Failed to open file '' @ f @ '': '' @ err)]\<rparr>)
   \<and> logger (snd (the (Open spf f (Inl err) rc s))) = logger s
   \<and> Open spf f (Inr w) rc s =
       (if logLevel s \<le> INFO
        then (if length (queue s) < 32
              then Some (None,
                         s\<lparr>logger := \<lparr>writer = w, path = f\<rparr>,
                           queue := queue s @
                             [\<lparr>caller = here rc, message = spf ''Log ready.'' [], level = INFO\<rparr>]\<rparr>)
              else None)
        else Some (None, s\<lparr>logger := \<lparr>writer = w, path = f\<rparr>\<rparr>))
   \<and> Open spf f (Inr w) rc s =
       map_option (Pair None) (Infof spf ''Log ready.'' [] rc (s\<lparr>logger := \<lparr>writer = w, path = f\<rparr>\<rparr>))"
  by (simp add: Open_def NewFile_def NewFd_def Infof_def queue_send_def not_less)

theorem Open_outcomes_witness:
  "Open Sprintf_s ''/var/log/app.log'' (Inl ''permission denied'') None init_state =
     Some (Some ''permission denied'',
           init_state\<lparr>written :=
             [(Stderr, ''Failed to open file /var/log/app.log: permission denied'')]\<rparr>)
   \<and> Open Sprintf_s ''/var/log/app.log'' (Inr (Handle 3)) (Some (''/go/src/golog/golog.go'', 116)) init_state =
     Some (None,
           init_state\<lparr>logger := \<lparr>writer = Handle 3, path = ''/var/log/app.log''\<rparr>,
             queue := [\<lparr>caller = \<lparr>filename = ''golog.go'', line = 116\<rparr>,
                        message = ''Log ready.'', level = 1\<rparr>]\<rparr>)
   \<and> Open Sprintf_s ''/var/log/app.log'' (Inr (Handle 3)) None (SetLogLevel WARN init_state) =
     Some (None,
           (SetLogLevel WARN init_state)\<lparr>logger := \<lparr>writer = Handle 3, path = ''/var/log/app.log''\<rparr>\<rparr>)"
  using Open_outcomes [of Sprintf_s "''/var/log/app.log''" "''permission denied''" None init_state "Handle 3"]
    Open_outcomes [of Sprintf_s "''/var/log/app.log''" "''permission denied''" "Some (''/go/src/golog/golog.go'', 116)" init_state "Handle 3"]
    Open_outcomes [of Sprintf_s "''/var/log/app.log''" "''permission denied''" None "SetLogLevel WARN init_state" "Handle 3"]
  by (simp add: init_state_def go_daemon_def package_vars_def NewFd_def Level_defs here_def
      filename_fn_def SetLogLevel_def)

subsection \<open>Rotation\<close>

text \<open>
  Claim C6. On a logger with a path: when the file cannot be opened again, \<open>Rotate\<close>
  calls \<open>Errorf\<close>, returns the error and leaves the logger as it was; when it can,
  \<open>Rotate\<close> calls \<open>Infof\<close> and then installs a logger with the new handle and the same
  path. Both messages take the way of every message of their level, threshold included.
\<close>

theorem Rotate_path_backed:
  "path (logger s) \<noteq> '''' \<Longrightarrow>
   Rotate spf (Inl err) rc s =
     (if logLevel s \<le> ERROR
      then (if length (queue s) < 32
            then Some (Some err,
                       s\<lparr>synced := synced s @ [writer (logger s)],
                         queue := queue s @
                           [\<lparr>caller = here rc,
                             message = spf ''Reopen log file %s: %s''
                                         [VString (path (logger s)), VError err],
                             level = ERROR\<rparr>]\<rparr>)
            else None)
      else Some (Some err, s\<lparr>synced := synced s @ [writer (logger s)]\<rparr>))
   \<and> Rotate spf (Inr newfd) rc s =
     (if logLevel s \<le> INFO
      then (if length (queue s) < 32
            then Some (None,
                       s\<lparr>synced := synced s @ [writer (logger s)],
                         queue := queue s @
                           [\<lparr>caller = here rc,
                             message = spf ''Reopened log file %s'' [VString (path (logger s))],
                             level = INFO\<rparr>],
                         logger := \<lparr>writer = newfd, path = path (logger s)\<rparr>\<rparr>)
            else None)
      else Some (None,
                 s\<lparr>synced := synced s @ [writer (logger s)],
                   logger := \<lparr>writer = newfd, path = path (logger s)\<rparr>\<rparr>))"
  by (simp add: Rotate_def Let_def NewFd_def Infof_def Errorf_def queue_send_def not_less)

theorem Rotate_path_backed_witness:
  "path (logger rotate_example) \<noteq> ''''
   \<and> Rotate Sprintf_s (Inl ''no such file or directory'') None rotate_example =
       Some (Some ''no such file or directory'',
             rotate_example\<lparr>synced := [Handle 3],
               queue := [\<lparr>caller = \<lparr>filename = ''<unknown>'', line = 0\<rparr>,
                          message = ''Reopen log file /var/log/app.log: no such file or directory'',
                          level = 3\<rparr>]\<rparr>)
   \<and> Rotate Sprintf_s (Inr (Handle 4)) None rotate_example =
       Some (None,
             rotate_example\<lparr>synced := [Handle 3],
               queue := [\<lparr>caller = \<lparr>filename = ''<unknown>'', line = 0\<rparr>,
                          message = ''Reopened log file /var/log/app.log'', level = 1\<rparr>],
               logger := \<lparr>writer = Handle 4, path = ''/var/log/app.log''\<rparr>\<rparr>)"
proof -
  have p: "path (logger rotate_example) \<noteq> ''''"
    by (simp add: rotate_example_def)
  show ?thesis
    using p
      Rotate_path_backed [OF p, of Sprintf_s "''no such file or directory''" None "Handle 4"]
    by (simp add: rotate_example_def init_state_def go_daemon_def package_vars_def NewFd_def
        Level_defs here_def filename_fn_def)
qed

text \<open>
  Claim C7. When the current logger has no path, \<open>Rotate\<close> returns \<^verbatim>\<open>nil\<close> and leaves
  the logger, the queue and everything written as they were; all it has done is the
  \<^verbatim>\<open>Sync\<close> of the writer, whose result it ignores. The logger the process starts with
  (standard error) and every logger that \<open>OpenFd\<close> installs have no path.
\<close>

theorem Rotate_stream_only:
  "(path (logger s) = '''' \<longrightarrow>
      Rotate spf opened rc s = Some (None, s\<lparr>synced := synced s @ [writer (logger s)]\<rparr>))
   \<and> path (logger init_state) = '''' \<and> path (logger (OpenFd fd s)) = ''''"
  by (simp add: Rotate_def Let_def init_state_def go_daemon_def package_vars_def NewFd_def OpenFd_def)

theorem Rotate_stream_only_witness:
  "path (logger init_state) = '''' \<and>
   Rotate Sprintf_s (Inl ''EACCES'') None init_state = Some (None, init_state\<lparr>synced := [Stderr]\<rparr>)"
  using Rotate_stream_only [of init_state Sprintf_s "Inl ''EACCES''" None]
  by (simp add: init_state_def go_daemon_def package_vars_def NewFd_def)

subsection \<open>Starting the daemon\<close>

text \<open>
  Claim C8 says that at most one daemon runs at a time. \<open>Start\<close> creates a daemon exactly
  when \<open>has_daemon\<close> is false (lemma \<open>Start_guard\<close>), but the flag is set by the
  daemon itself, in its first statement, not by \<open>Start\<close>. When \<open>main\<close> begins, \<^verbatim>\<open>init()\<close>
  has created a daemon and the flag is still false: a call of \<open>Start\<close> at that moment
  creates a second daemon, and both enter the loop. The same happens when \<open>Start\<close> is
  called twice in a row after a \<open>Stop\<close>.
\<close>

theorem Start_before_daemon_runs:
  "has_daemon init_state = False \<and> starting init_state = 1 \<and> looping init_state = 0
   \<and> Start init_state = init_state\<lparr>starting := 2\<rparr>
   \<and> run Sprintf_s early_start_run init_state =
       Some (init_state\<lparr>has_daemon := True, starting := 0, looping := 2\<rparr>)
   \<and> run Sprintf_s restart_run init_state =
       Some (init_state\<lparr>has_daemon := True, starting := 0, looping := 2\<rparr>)"
  using early_start_states
  by (simp add: init_state_def go_daemon_def package_vars_def Start_def)

subsection \<open>The level of an envelope and the table of names\<close>

text \<open>
  Claim C9. Whatever call of the interface sends on the queue has one of the five levels
  \<open>DEBUG .. FATAL\<close>; for each of them the table has a name; so in every state that a run
  of the process reaches, all queued envelopes have a name in the table, no panic has
  happened, and the next turn of the daemon does not panic either.
\<close>

theorem table_lookup_in_bounds:
  "(call_step spf c s0 = Some s1 \<longrightarrow>
      (\<exists>ms. queue s1 = queue s0 @ ms \<and> (\<forall>m \<in> set ms. level m \<in> {DEBUG, INFO, WARN, ERROR, FATAL})))
   \<and> (l \<in> {DEBUG, INFO, WARN, ERROR, FATAL} \<longrightarrow> level_string_at l = Some (level_string ! nat l))
   \<and> (run spf acts init_state = Some s \<longrightarrow>
        status s \<noteq> Panicked \<and>
        (\<forall>m \<in> set (queue s). level m \<in> {DEBUG, INFO, WARN, ERROR, FATAL}
           \<and> level_string_at (level m) \<noteq> None) \<and>
        (daemon_msg now s = Some s' \<longrightarrow> status s' \<noteq> Panicked))"
  using call_step_levels [of spf c s0 s1] level_string_at_table [of l]
    reachable_levels [of spf acts s] reachable_daemon_no_panic [of spf acts s now s']
  by blast

theorem table_lookup_in_bounds_witness:
  "run Sprintf_s mixed_run init_state = Some mixed_state
   \<and> status mixed_state = Running
   \<and> map level (queue mixed_state) = [FATAL]
   \<and> level_string_at FATAL = Some ''FATAL''
   \<and> call_step Sprintf_s (Fatal_call ''z'' None) init_state =
       Some (init_state\<lparr>fatal_waiters := 1,
               queue := [\<lparr>caller = \<lparr>filename = ''<unknown>'', line = 0\<rparr>, message = ''z'',
                          level = FATAL\<rparr>]\<rparr>)"
proof -
  have r: "run Sprintf_s mixed_run init_state = Some mixed_state"
    by (rule mixed_run_state)
  have c: "call_step Sprintf_s (Fatal_call ''z'' None) init_state =
       Some (init_state\<lparr>fatal_waiters := 1,
               queue := [\<lparr>caller = \<lparr>filename = ''<unknown>'', line = 0\<rparr>, message = ''z'',
                          level = FATAL\<rparr>]\<rparr>)"
    by (simp add: Fatal_eq init_state_def go_daemon_def package_vars_def here_def filename_fn_def)
  note t = table_lookup_in_bounds [where spf = Sprintf_s and acts = mixed_run and s = mixed_state
      and l = FATAL and c = "Fatal_call ''z'' None" and ?s0.0 = init_state]
  have "status mixed_state \<noteq> Panicked" using t r by simp
  moreover have "level_string_at FATAL = Some (level_string ! nat FATAL)" using t by simp
  ultimately show ?thesis
    using r c by (simp add: mixed_state_def level_string_def FATAL_def init_state_def
        go_daemon_def package_vars_def)
qed

subsection \<open>A threshold outside the five levels\<close>

text \<open>
  Claim C10. \<open>SetLogLevel\<close> stores whatever level it is given. With the threshold at
  \<open>INVALID\<close>, which is \<open>-1\<close> and so below the level of every entry point, no call
  returns without sending: each one, \<open>Debug\<close> included, puts its envelope on the queue.
\<close>

theorem SetLogLevel_unchecked:
  "logLevel (SetLogLevel lvl s) = lvl
   \<and> INVALID = - 1 \<and> INVALID \<le> emit_level e
   \<and> emit spf e rc (SetLogLevel INVALID s) =
       (if length (queue s) < 32
        then Some ((SetLogLevel INVALID s)\<lparr>queue := queue s @
                     [\<lparr>caller = here rc, message = emit_text spf e, level = emit_level e\<rparr>]\<rparr>)
        else None)
   \<and> Fatal msg rc (SetLogLevel INVALID s) =
       (if length (queue s) < 32
        then Some ((SetLogLevel INVALID s)\<lparr>queue := queue s @
                     [\<lparr>caller = here rc, message = msg, level = FATAL\<rparr>],
                     fatal_waiters := fatal_waiters s + 1\<rparr>)
        else None)"
  by (cases e) (simp_all add: emit_defs queue_send_def SetLogLevel_def Level_defs Fatal_def)

theorem SetLogLevel_unchecked_witness:
  "logLevel (SetLogLevel INVALID package_vars) = - 1
   \<and> emit Sprintf_s (Debug_of ''x'') None (SetLogLevel INVALID package_vars) =
       Some (package_vars\<lparr>logLevel := - 1,
               queue := [\<lparr>caller = \<lparr>filename = ''<unknown>'', line = 0\<rparr>, message = ''x'',
                          level = 0\<rparr>]\<rparr>)"
  using SetLogLevel_unchecked [where lvl = INVALID and s = package_vars and e = "Debug_of ''x''"
      and spf = Sprintf_s and rc = None]
  by (simp add: package_vars_def Level_defs here_def filename_fn_def SetLogLevel_def)

end
